theory Spec2Isabelle
  imports Complex_Main "HOL-Library.Multiset"
begin

section \<open>Numbers and text\<close>

text \<open>
  Prices are Python floats. They are modelled as exact real numbers: the rounding of
  each arithmetic operation, infinities and NaN are not modelled. Console output
  (\<open>print\<close>) is not modelled either: no printed line feeds back into a computed value.
  Strings are lists of 8-bit characters, so letters, digits and white space are the
  ASCII ones.
\<close>

datatype error =
    ZeroDivisionError
  | AttributeError
  | ValueError
  | IndexError
  | TypeError
  | RequestException
  | HTTPError

text \<open>Rounding to the nearest integer, ties to the even neighbour.\<close>

definition round_half_even :: "real \<Rightarrow> int" where
  "round_half_even x =
     (let f = \<lfloor>x\<rfloor>; d = x - of_int f
      in if d < 1 / 2 then f
         else if 1 / 2 < d then f + 1
         else if even f then f else f + 1)"

text \<open>Python's \<open>round(x, ndigits)\<close> on a float.\<close>

definition py_round :: "real \<Rightarrow> nat \<Rightarrow> real" where
  "py_round x ndigits = of_int (round_half_even (x * 10 ^ ndigits)) / 10 ^ ndigits"

definition digit_char :: "nat \<Rightarrow> char" where
  "digit_char n = ''0123456789'' ! (n mod 10)"

text \<open>Python's \<open>str(n)\<close> for a non-negative integer.\<close>

function str_nat :: "nat \<Rightarrow> string" where
  "str_nat n = (if n < 10 then [digit_char n] else str_nat (n div 10) @ [digit_char n])"
  by pat_completeness auto
termination
  by (relation "measure id") auto

declare str_nat.simps [simp del]

text \<open>
  Python's fixed-point formatting \<open>f"{x:.Nf}"\<close> for \<open>N \<ge> 1\<close>: sign, integer part, a
  point and exactly \<open>N\<close> digits; a negative value that rounds to zero keeps its sign.
\<close>

definition format_fixed :: "nat \<Rightarrow> real \<Rightarrow> string" where
  "format_fixed N x =
     (let n = nat (round_half_even (\<bar>x\<bar> * 10 ^ N));
          frac = str_nat (n mod 10 ^ N)
      in (if x < 0 then ''-'' else '''') @ str_nat (n div 10 ^ N) @ ''.''
           @ replicate (N - length frac) (CHR ''0'') @ frac)"

section \<open>Data model\<close>

type_synonym timestamp = nat

record ProductData =
  store :: string
  product_name :: string
  price :: real
  url :: string
  scraped_at :: timestamp
  additional_info :: "(string \<times> string) list"

record DealAnalysis =
  product :: ProductData
  is_good_deal :: bool
  reasoning :: string
  average_price :: real
  price_difference :: real
  deal_quality :: string

section \<open>Agent 2: deal analysis\<close>

text \<open>Float division: a zero divisor raises.\<close>

definition float_div :: "real \<Rightarrow> real \<Rightarrow> error + real" where
  "float_div a b = (if b = 0 then Inl ZeroDivisionError else Inr (a / b))"

text \<open>The body of the loop of \<open>analyze_deals\<close> for one product.\<close>

definition analyze_product :: "real \<Rightarrow> ProductData \<Rightarrow> error + DealAnalysis" where
  "analyze_product avg_price p =
     (let price_diff = price p - avg_price
      in case float_div price_diff avg_price of
           Inl e \<Rightarrow> Inl e
         | Inr q \<Rightarrow>
             (let percent_diff = q * 100;
                  (good, quality, reason) =
                    (if percent_diff \<le> - 15 then
                       (True, ''EXCELLENT'',
                        ''Price is '' @ format_fixed 1 \<bar>percent_diff\<bar>
                          @ ''% below average - exceptional deal!'')
                     else if percent_diff \<le> - 5 then
                       (True, ''GOOD'',
                        ''Price is '' @ format_fixed 1 \<bar>percent_diff\<bar>
                          @ ''% below average - good value.'')
                     else if percent_diff \<le> 5 then
                       (False, ''AVERAGE'',
                        ''Price is close to market average ('' @ format_fixed 1 percent_diff
                          @ ''%).'')
                     else
                       (False, ''POOR'',
                        ''Price is '' @ format_fixed 1 percent_diff
                          @ ''% above average - not recommended.''))
              in Inr \<lparr>product = p, is_good_deal = good, reasoning = reason,
                      average_price = avg_price, price_difference = price_diff,
                      deal_quality = quality\<rparr>))"

text \<open>The loop over the products: each analysis is appended; an exception ends the loop.\<close>

fun analyze_loop :: "real \<Rightarrow> ProductData list \<Rightarrow> DealAnalysis list \<Rightarrow> error + DealAnalysis list" where
  "analyze_loop avg_price [] analyses = Inr analyses"
| "analyze_loop avg_price (p # ps) analyses =
     (case analyze_product avg_price p of
        Inl e \<Rightarrow> Inl e
      | Inr a \<Rightarrow> analyze_loop avg_price ps (analyses @ [a]))"

definition analyze_deals :: "ProductData list \<Rightarrow> error + DealAnalysis list" where
  "analyze_deals products =
     (let analyses = []
      in if products = [] then Inr analyses
         else
           (let prices = map price products;
                avg_price = sum_list prices / of_nat (length prices)
            in analyze_loop avg_price products analyses))"

section \<open>The environment\<close>

text \<open>
  A parsed document as BeautifulSoup presents it: text nodes and elements with a tag
  name, the values of the \<open>class\<close> attribute and the child nodes. The parser itself is
  a library; a response carries the tree the parser builds from its content.
\<close>

datatype node = Text string | Element string "string list" "node list"

record response =
  status_code :: nat
  content :: node

type_synonym addr = nat

text \<open>A list object of the program; lists are the only objects the code shares and mutates.\<close>

datatype obj =
    Urls "string list"
  | Products "ProductData list"
  | Analyses "DealAnalysis list"

text \<open>
  Everything the code reads from or changes outside its arguments: the HTTP session
  (\<open>transport\<close> gives for a URL either the exception of a failed or timed-out request
  or the response; \<open>requests_made\<close> lists the requests so far), the clock behind
  \<open>datetime.now()\<close>,
  the generator behind \<open>random.random()\<close> (values in the unit interval), and the heap
  of list objects, an address being an index into it.
\<close>

record world =
  transport :: "string \<Rightarrow> error + response"
  requests_made :: "string list"
  clock :: "nat \<Rightarrow> timestamp"
  clock_reads :: nat
  rng :: "nat \<Rightarrow> real"
  rng_reads :: nat
  heap :: "obj list"

definition datetime_now :: "world \<Rightarrow> timestamp \<times> world" where
  "datetime_now w = (clock w (clock_reads w), w\<lparr>clock_reads := Suc (clock_reads w)\<rparr>)"

text \<open>\<open>random.uniform(a, b)\<close> is \<open>a + (b - a) * random()\<close>.\<close>

definition random_uniform :: "world \<Rightarrow> real \<Rightarrow> real \<Rightarrow> real \<times> world" where
  "random_uniform w a b =
     (a + (b - a) * rng w (rng_reads w), w\<lparr>rng_reads := Suc (rng_reads w)\<rparr>)"

definition session_get :: "world \<Rightarrow> string \<Rightarrow> (error + response) \<times> world" where
  "session_get w u = (transport w u, w\<lparr>requests_made := requests_made w @ [u]\<rparr>)"

definition lookup :: "world \<Rightarrow> addr \<Rightarrow> obj option" where
  "lookup w a = (if a < length (heap w) then Some (heap w ! a) else None)"

definition alloc :: "world \<Rightarrow> obj \<Rightarrow> addr \<times> world" where
  "alloc w x = (length (heap w), w\<lparr>heap := heap w @ [x]\<rparr>)"

definition store_obj :: "world \<Rightarrow> addr \<Rightarrow> obj \<Rightarrow> world" where
  "store_obj w a x = w\<lparr>heap := (heap w)[a := x]\<rparr>"

text \<open>The constructor of \<open>ProductData\<close> reads the clock.\<close>

definition ProductData_init ::
    "world \<Rightarrow> string \<Rightarrow> string \<Rightarrow> real \<Rightarrow> string \<Rightarrow> ProductData \<times> world" where
  "ProductData_init w st nm pr u =
     (let (t, w') = datetime_now w
      in (\<lparr>store = st, product_name = nm, price = pr, url = u, scraped_at = t,
           additional_info = []\<rparr>, w'))"

section \<open>Strings and patterns\<close>

definition lower_char :: "char \<Rightarrow> char" where
  "lower_char c =
     (case map_of (zip ''ABCDEFGHIJKLMNOPQRSTUVWXYZ'' ''abcdefghijklmnopqrstuvwxyz'') c of
        Some l \<Rightarrow> l
      | None \<Rightarrow> c)"

definition lower :: "string \<Rightarrow> string" where
  "lower s = map lower_char s"

definition is_digit :: "char \<Rightarrow> bool" where
  "is_digit c = (c \<in> set ''0123456789'')"

definition digit_val :: "char \<Rightarrow> nat" where
  "digit_val c = length (takeWhile (\<lambda>d. d \<noteq> c) ''0123456789'')"

definition is_space :: "char \<Rightarrow> bool" where
  "is_space c =
     (c \<in> set [CHR '' '', CHR 0x09, CHR 0x0A, CHR 0x0B, CHR 0x0C, CHR 0x0D,
                CHR 0x1C, CHR 0x1D, CHR 0x1E, CHR 0x1F])"

definition strip :: "string \<Rightarrow> string" where
  "strip s = rev (dropWhile is_space (rev (dropWhile is_space s)))"

fun contains :: "string \<Rightarrow> string \<Rightarrow> bool" where
  "contains pat [] = (pat = [])"
| "contains pat (c # cs) = (take (length pat) (c # cs) = pat \<or> contains pat cs)"

text \<open>
  \<open>re.compile(r'a|b', re.I).search\<close> for alternatives without metacharacters: some
  alternative occurs in the text, letter case ignored.
\<close>

definition re_search_any :: "string list \<Rightarrow> string \<Rightarrow> bool" where
  "re_search_any alts s = list_ex (\<lambda>pat. contains pat (lower s)) alts"

text \<open>\<open>s.split(sep)\<close> for a one-character separator.\<close>

fun str_split :: "char \<Rightarrow> string \<Rightarrow> string list" where
  "str_split sep [] = [[]]"
| "str_split sep (c # cs) =
     (if c = sep then [] # str_split sep cs
      else (case str_split sep cs of
              [] \<Rightarrow> [[c]]
            | part # parts \<Rightarrow> (c # part) # parts))"

text \<open>\<open>s.replace(old, '')\<close> for a non-empty \<open>old\<close>: occurrences are removed left to right.\<close>

function remove_all :: "string \<Rightarrow> string \<Rightarrow> string" where
  "remove_all old [] = []"
| "remove_all old (c # cs) =
     (if old \<noteq> [] \<and> take (length old) (c # cs) = old
      then remove_all old (drop (length old) (c # cs))
      else c # remove_all old cs)"
  by pat_completeness auto
termination
  by (relation "measure (\<lambda>(old, s). length s)") auto

text \<open>
  \<open>re.search(r'[\d,]+\.?\d*', s)\<close>: the match starts at the first digit or comma, takes
  the whole run of digits and commas, a point if one follows, and the digits after it.
\<close>

definition is_num_char :: "char \<Rightarrow> bool" where
  "is_num_char c = (is_digit c \<or> c = CHR '','')"

definition price_search :: "string \<Rightarrow> string option" where
  "price_search s =
     (let rest = dropWhile (\<lambda>c. \<not> is_num_char c) s
      in if rest = [] then None
         else
           (let run = takeWhile is_num_char rest;
                after = dropWhile is_num_char rest
            in case after of
                 [] \<Rightarrow> Some run
               | c # cs \<Rightarrow>
                   if c = CHR ''.'' then Some (run @ ''.'' @ takeWhile is_digit cs)
                   else Some run))"

definition digits_val :: "string \<Rightarrow> nat" where
  "digits_val ds = foldl (\<lambda>acc d. 10 * acc + digit_val d) 0 ds"

text \<open>
  \<open>float(s)\<close> on the texts the price pattern can produce once the commas are removed:
  digits, an optional point, digits. At least one digit is needed; otherwise ValueError.
\<close>

definition py_float :: "string \<Rightarrow> error + real" where
  "py_float s =
     (let ip = takeWhile (\<lambda>c. c \<noteq> CHR ''.'') s;
          fp = drop (Suc (length ip)) s
      in if list_all is_digit ip \<and> list_all is_digit fp \<and> (ip \<noteq> [] \<or> fp \<noteq> [])
         then Inr (of_nat (digits_val ip) + of_nat (digits_val fp) / 10 ^ length fp)
         else Inl ValueError)"

section \<open>Searching the document tree\<close>

text \<open>The descendants of a node in document order, the node itself excluded.\<close>

fun descendants :: "node \<Rightarrow> node list" where
  "descendants (Text s) = []"
| "descendants (Element t cs kids) = concat (map (\<lambda>k. k # descendants k) kids)"

fun tag_in :: "string list \<Rightarrow> node \<Rightarrow> bool" where
  "tag_in names (Text s) = False"
| "tag_in names (Element t cs kids) = (t \<in> set names)"

text \<open>A class filter given as a compiled pattern matches when some class value does.\<close>

fun class_matches :: "string list \<Rightarrow> node \<Rightarrow> bool" where
  "class_matches alts (Text s) = False"
| "class_matches alts (Element t cs kids) = list_ex (re_search_any alts) cs"

definition find_all :: "(node \<Rightarrow> bool) \<Rightarrow> node \<Rightarrow> node list" where
  "find_all P n = filter P (descendants n)"

definition find_first :: "(node \<Rightarrow> bool) \<Rightarrow> node \<Rightarrow> node option" where
  "find_first P n = (case find_all P n of [] \<Rightarrow> None | e # _ \<Rightarrow> Some e)"

text \<open>\<open>get_text(strip=True)\<close>: every text below the node, stripped, the empty ones dropped.\<close>

fun texts :: "node \<Rightarrow> string list" where
  "texts (Text s) = [s]"
| "texts (Element t cs kids) = concat (map texts kids)"

definition get_text :: "node \<Rightarrow> string" where
  "get_text n = concat (filter (\<lambda>s. s \<noteq> []) (map strip (texts n)))"

section \<open>Agent 1: scraping\<close>

text \<open>
  \<open>extract_product_info\<close>, in two parts: \<open>extract_fields\<close> is everything up to the
  arguments of the constructor, \<open>extract_product_info\<close> adds the constructor call, which
  reads the clock. A tag found by \<open>find\<close> is always true in a condition, so \<open>or\<close> and
  \<open>and\<close> only test whether an element was found. Every exception inside is caught and
  gives \<open>None\<close>.
\<close>

definition extract_fields :: "node \<Rightarrow> (string \<times> real) option" where
  "extract_fields container =
     (let name_elem =
            (case find_first (tag_in [''h3'', ''h4'', ''h2'']) container of
               Some e \<Rightarrow> Some e
             | None \<Rightarrow>
                 find_first (\<lambda>n. tag_in [''a''] n \<and> class_matches [''title'', ''name''] n)
                   container);
          price_elem = find_first (class_matches [''price'']) container
      in case (name_elem, price_elem) of
           (Some ne, Some pe) \<Rightarrow>
             (let name = get_text ne;
                  price_text = get_text pe
              in case price_search price_text of
                   None \<Rightarrow> None
                 | Some m \<Rightarrow>
                     (case py_float (filter (\<lambda>c. c \<noteq> CHR '','') m) of
                        Inl e \<Rightarrow> None
                      | Inr pr \<Rightarrow> Some (name, pr)))
         | _ \<Rightarrow> None)"

definition extract_product_info ::
    "world \<Rightarrow> node \<Rightarrow> string \<Rightarrow> string \<Rightarrow> ProductData option \<times> world" where
  "extract_product_info w container store_name source_url =
     (case extract_fields container of
        None \<Rightarrow> (None, w)
      | Some (name, pr) \<Rightarrow>
          (let (p, w') = ProductData_init w store_name name pr source_url
           in (Some p, w')))"

text \<open>The loop of \<open>scrape_store\<close> over the candidate containers.\<close>

fun extract_loop ::
    "world \<Rightarrow> node list \<Rightarrow> string \<Rightarrow> string \<Rightarrow> ProductData list \<Rightarrow> ProductData list \<times> world" where
  "extract_loop w [] store_name u products = (products, w)"
| "extract_loop w (container # rest) store_name u products =
     (case extract_product_info w container store_name u of
        (Some p, w') \<Rightarrow> extract_loop w' rest store_name u (products @ [p])
      | (None, w') \<Rightarrow> extract_loop w' rest store_name u products)"

text \<open>\<open>url.split('/')[2].replace('www.', '')\<close>; the index raises on fewer than three parts.\<close>

definition store_name_of :: "string \<Rightarrow> error + string" where
  "store_name_of u =
     (let parts = str_split (CHR ''/'') u
      in if 2 < length parts then Inr (remove_all ''www.'' (parts ! 2)) else Inl IndexError)"

text \<open>\<open>response.raise_for_status()\<close> raises for the status codes 400 to 599.\<close>

definition raise_for_status :: "response \<Rightarrow> error + unit" where
  "raise_for_status r =
     (if 400 \<le> status_code r \<and> status_code r < 600 then Inl HTTPError else Inr ())"

definition product_containers :: "node \<Rightarrow> node list" where
  "product_containers soup =
     (let divs = find_all (\<lambda>n. tag_in [''div''] n \<and> class_matches [''product'', ''item''] n) soup
      in if divs \<noteq> [] then divs
         else
           (let articles = find_all (tag_in [''article'']) soup
            in if articles \<noteq> [] then articles
               else find_all (\<lambda>n. tag_in [''li''] n \<and> class_matches [''product'', ''item''] n)
                      soup))"

text \<open>
  \<open>scrape_store\<close>. Its \<open>try\<close> block catches every exception and the function then returns
  the products gathered so far; the statements that can raise all come before the loop.
\<close>

definition scrape_store :: "world \<Rightarrow> string \<Rightarrow> string \<Rightarrow> ProductData list \<times> world" where
  "scrape_store w u product_query =
     (let products = [];
          (got, w1) = session_get w u
      in case got of
           Inl e \<Rightarrow> (products, w1)
         | Inr resp \<Rightarrow>
             (case raise_for_status resp of
                Inl e \<Rightarrow> (products, w1)
              | Inr _ \<Rightarrow>
                  (let soup = content resp
                   in case store_name_of u of
                        Inl e \<Rightarrow> (products, w1)
                      | Inr store_name \<Rightarrow>
                          extract_loop w1 (take 10 (product_containers soup)) store_name u
                            products)))"

text \<open>
  \<open>scrape_multiple_stores\<close>. \<open>scrape_store\<close> returns a list in every case, so the
  \<open>except\<close> branch around the call is never taken.
\<close>

fun scrape_loop ::
    "world \<Rightarrow> string list \<Rightarrow> string \<Rightarrow> ProductData list \<Rightarrow> ProductData list \<times> world" where
  "scrape_loop w [] product_query all_products = (all_products, w)"
| "scrape_loop w (u # us) product_query all_products =
     (let (products, w') = scrape_store w u product_query
      in scrape_loop w' us product_query (all_products @ products))"

definition scrape_multiple_stores ::
    "world \<Rightarrow> string list \<Rightarrow> string \<Rightarrow> ProductData list \<times> world" where
  "scrape_multiple_stores w urls product_query = scrape_loop w urls product_query []"

text \<open>\<open>get_mock_data\<close>: one listing per store, the price drawn around the base price.\<close>

definition stores :: "string list" where
  "stores = [''Amazon'', ''Walmart'', ''BestBuy'', ''Target'', ''eBay'']"

definition base_price :: real where
  "base_price = 29999 / 100"

fun mock_loop ::
    "world \<Rightarrow> string list \<Rightarrow> string \<Rightarrow> ProductData list \<Rightarrow> ProductData list \<times> world" where
  "mock_loop w [] nm products = (products, w)"
| "mock_loop w (st # sts) nm products =
     (let (variance, w1) = random_uniform w (- 50) 50;
          pr = py_round (base_price + variance) 2;
          (p, w2) = ProductData_init w1 st nm pr (''https://'' @ lower st @ ''.com/product'')
      in mock_loop w2 sts nm (products @ [p]))"

definition get_mock_data :: "world \<Rightarrow> string \<Rightarrow> ProductData list \<times> world" where
  "get_mock_data w nm = mock_loop w stores nm []"

section \<open>Agent 3: reporting\<close>

text \<open>The report keeps a reference to the list of analyses it was given.\<close>

record Report =
  analyses :: addr
  summary :: string
  generated_at :: timestamp

text \<open>
  \<open>generate_report\<close>. The argument is a reference to a list; \<open>analyses.sort(key=...)\<close>
  sorts that list where it is, stably. With no analyses \<open>best_deal\<close> is \<open>None\<close> and
  building the summary raises AttributeError.
\<close>

definition generate_report :: "world \<Rightarrow> addr \<Rightarrow> (error + Report) \<times> world" where
  "generate_report w ref =
     (case lookup w ref of
        Some (Analyses xs) \<Rightarrow>
          (let sorted_xs = sort_key (\<lambda>a. price (product a)) xs;
               w1 = store_obj w ref (Analyses sorted_xs);
               good_deals = filter is_good_deal sorted_xs;
               best_deal = (case sorted_xs of [] \<Rightarrow> None | a # _ \<Rightarrow> Some a)
           in case best_deal of
                None \<Rightarrow> (Inl AttributeError, w1)
              | Some b \<Rightarrow>
                  (let text = ''Analyzed '' @ str_nat (length sorted_xs) @ '' listings. ''
                         @ ''Found '' @ str_nat (length good_deals) @ '' good deals. ''
                         @ ''Best price: $'' @ format_fixed 2 (price (product b))
                         @ '' at '' @ store (product b) @ ''.'';
                       (t, w2) = datetime_now w1
                   in (Inr \<lparr>analyses = ref, summary = text, generated_at = t\<rparr>, w2)))
      | _ \<Rightarrow> (Inl AttributeError, w))"

section \<open>The agents called on list objects\<close>

text \<open>
  The Python functions receive and return references. Each function below reads its
  argument list from the heap, runs the agent, and returns the address of the list the
  agent creates.
\<close>

definition scrape_multiple_stores_ref ::
    "world \<Rightarrow> addr \<Rightarrow> string \<Rightarrow> (error + addr) \<times> world" where
  "scrape_multiple_stores_ref w urls_ref product_query =
     (case lookup w urls_ref of
        Some (Urls us) \<Rightarrow>
          (let (all_products, w1) = alloc w (Products []);
               (ps, w2) = scrape_multiple_stores w1 us product_query
           in (Inr all_products, store_obj w2 all_products (Products ps)))
      | _ \<Rightarrow> (Inl TypeError, w))"

definition get_mock_data_ref :: "world \<Rightarrow> string \<Rightarrow> addr \<times> world" where
  "get_mock_data_ref w nm =
     (let (products, w1) = alloc w (Products []);
          (ps, w2) = get_mock_data w1 nm
      in (products, store_obj w2 products (Products ps)))"

definition analyze_deals_ref :: "world \<Rightarrow> addr \<Rightarrow> (error + addr) \<times> world" where
  "analyze_deals_ref w products_ref =
     (case lookup w products_ref of
        Some (Products ps) \<Rightarrow>
          (let (analyses_ref, w1) = alloc w (Analyses [])
           in case analyze_deals ps of
                Inl e \<Rightarrow> (Inl e, w1)
              | Inr xs \<Rightarrow> (Inr analyses_ref, store_obj w1 analyses_ref (Analyses xs)))
      | _ \<Rightarrow> (Inl TypeError, w))"

text \<open>The fields of a listing other than the time it was observed.\<close>

definition record_fields :: "ProductData \<Rightarrow> string \<times> string \<times> real \<times> string" where
  "record_fields p = (store p, product_name p, price p, url p)"

text \<open>The second world differs from the first at most in the number of clock readings.\<close>

definition clock_only :: "world \<Rightarrow> world \<Rightarrow> bool" where
  "clock_only w w' =
     (transport w' = transport w \<and> requests_made w' = requests_made w \<and> clock w' = clock w \<and>
      rng w' = rng w \<and> rng_reads w' = rng_reads w \<and> heap w' = heap w)"

section \<open>Example data\<close>

definition listing :: "string \<Rightarrow> real \<Rightarrow> ProductData" where
  "listing st pr =
     \<lparr>store = st, product_name = ''tv'', price = pr, url = ''https://shop.example/tv'',
      scraped_at = 0, additional_info = []\<rparr>"

definition analysis :: "string \<Rightarrow> real \<Rightarrow> bool \<Rightarrow> DealAnalysis" where
  "analysis st pr good =
     \<lparr>product = listing st pr, is_good_deal = good, reasoning = [],
      average_price = 100, price_difference = pr - 100,
      deal_quality = (if good then ''EXCELLENT'' else ''POOR'')\<rparr>"

text \<open>A world whose transport fails for every URL and whose generator always gives 1/2.\<close>

definition example_world :: world where
  "example_world =
     \<lparr>transport = (\<lambda>u. Inl RequestException), requests_made = [],
      clock = (\<lambda>n. n), clock_reads = 0, rng = (\<lambda>n. 1 / 2), rng_reads = 0, heap = []\<rparr>"

text \<open>
  A page with two candidate containers: a television at 1,299.50 and a card with an
  empty heading and the price text \<open>0\<close>.
\<close>

definition tv_card :: node where
  "tv_card =
     Element ''div'' [''Product-card'']
       [Element ''h3'' [] [Text '' TV set ''],
        Element ''span'' [''Price''] [Text ''$1,299.50 now'']]"

definition free_card :: node where
  "free_card =
     Element ''div'' [''item'']
       [Element ''h3'' [] [], Element ''b'' [''price''] [Text ''0'']]"

definition shop_page :: node where
  "shop_page = Element ''[document]'' [] [tv_card, free_card]"

definition shop_world :: world where
  "shop_world =
     example_world\<lparr>transport :=
       (\<lambda>u. if u = ''https://www.shop.com/tv''
            then Inr \<lparr>status_code = 200, content = shop_page\<rparr>
            else Inl RequestException)\<rparr>"


text \<open>A heap with a list of two analyses, the dearer listing first, and a list of products.\<close>

definition report_world :: world where
  "report_world =
     example_world\<lparr>heap :=
       [Analyses [analysis ''a'' 115 False, analysis ''b'' 85 True],
        Products [listing ''a'' 115, listing ''b'' 85]]\<rparr>"

section \<open>Evaluation and the classifier loop\<close>

lemma str_nat_small: "n < 10 \<Longrightarrow> str_nat n = [digit_char n]"
  by (simp add: str_nat.simps)

lemma str_nat_big: "10 \<le> n \<Longrightarrow> str_nat n = str_nat (n div 10) @ [digit_char n]"
  by (subst str_nat.simps) simp





section \<open>The heap and the classifier\<close>

lemma lookup_store_same: "a < length (heap w) \<Longrightarrow> lookup (store_obj w a x) a = Some x"
  by (simp add: lookup_def store_obj_def)

lemma lookup_store_other: "b \<noteq> a \<Longrightarrow> lookup (store_obj w a x) b = lookup w b"
  by (simp add: lookup_def store_obj_def)

lemma lookup_SomeD: "lookup w a = Some x \<Longrightarrow> a < length (heap w)"
  by (simp add: lookup_def split: if_splits)




lemma analyze_deals_ref_eq:
  assumes "lookup w p = Some (Products ps)"
  shows "analyze_deals_ref w p =
           (case analyze_deals ps of
              Inl e \<Rightarrow> (Inl e, w\<lparr>heap := heap w @ [Analyses []]\<rparr>)
            | Inr xs \<Rightarrow> (Inr (length (heap w)), w\<lparr>heap := heap w @ [Analyses xs]\<rparr>))"
  using assms
  by (simp add: analyze_deals_ref_def alloc_def store_obj_def split: sum.splits)

section \<open>Claims about the classifier\<close>




text \<open>
  C4. For the empty product sequence \<open>analyze_deals\<close> returns the empty analysis
  sequence: the test for the empty batch comes before the average is computed, and no
  error is raised.
\<close>

theorem analyze_deals_empty: "analyze_deals [] = Inr []"
  by (simp add: analyze_deals_def)



section \<open>Claims about the scraper\<close>

lemma clock_only_refl: "clock_only w w"
  by (simp add: clock_only_def)

lemma clock_only_trans: "clock_only w w1 \<Longrightarrow> clock_only w1 w2 \<Longrightarrow> clock_only w w2"
  by (simp add: clock_only_def)

lemma ProductData_init_world: "clock_only w (snd (ProductData_init w st nm pr u))"
  by (simp add: ProductData_init_def datetime_now_def clock_only_def)

lemma ProductData_init_fields:
  "record_fields (fst (ProductData_init w st nm pr u)) = (st, nm, pr, u)"
  by (simp add: ProductData_init_def datetime_now_def record_fields_def)

lemma extract_product_info_world: "clock_only w (snd (extract_product_info w c s u))"
proof (cases "extract_fields c")
  case None
  then show ?thesis
    by (simp add: extract_product_info_def clock_only_refl)
next
  case (Some f)
  obtain nm pr where f: "f = (nm, pr)" by (cases f)
  have "snd (extract_product_info w c s u) = snd (ProductData_init w s nm pr u)"
    by (simp add: extract_product_info_def Some f split: prod.splits)
  then show ?thesis
    by (simp add: ProductData_init_world)
qed

lemma extract_product_info_fields:
  "map_option record_fields (fst (extract_product_info w c s u))
     = map_option (\<lambda>(nm, pr). (s, nm, pr, u)) (extract_fields c)"
proof (cases "extract_fields c")
  case None
  then show ?thesis by (simp add: extract_product_info_def)
next
  case (Some f)
  obtain nm pr where f: "f = (nm, pr)" by (cases f)
  have "fst (extract_product_info w c s u) = Some (fst (ProductData_init w s nm pr u))"
    by (simp add: extract_product_info_def Some f split: prod.splits)
  then show ?thesis
    by (simp add: Some f ProductData_init_fields)
qed

lemma extract_loop_step:
  assumes "extract_product_info w c s u = (r, w1)"
  shows "extract_loop w (c # cs) s u acc
           = extract_loop w1 cs s u (case r of None \<Rightarrow> acc | Some p \<Rightarrow> acc @ [p])"
  using assms by (cases r) simp_all

lemma extract_loop_world: "clock_only w (snd (extract_loop w cs s u acc))"
proof (induction cs arbitrary: w acc)
  case Nil
  show ?case by (simp add: clock_only_refl)
next
  case (Cons c cs)
  obtain r w1 where e: "extract_product_info w c s u = (r, w1)"
    by (cases "extract_product_info w c s u")
  from extract_product_info_world [of w c s u] e
  have w1: "clock_only w w1" by simp
  show ?case
    unfolding extract_loop_step [OF e]
    by (rule clock_only_trans [OF w1 Cons.IH])
qed

lemma extract_loop_fields:
  "map record_fields (fst (extract_loop w cs s u acc))
     = map record_fields acc @ map (\<lambda>(nm, pr). (s, nm, pr, u)) (List.map_filter extract_fields cs)"
proof (induction cs arbitrary: w acc)
  case Nil
  then show ?case by simp
next
  case (Cons c cs)
  obtain r w1 where e: "extract_product_info w c s u = (r, w1)"
    by (cases "extract_product_info w c s u")
  from extract_product_info_fields [of w c s u] e
  have f: "map_option record_fields r = map_option (\<lambda>(nm, pr). (s, nm, pr, u)) (extract_fields c)"
    by simp
  show ?case
  proof (cases r)
    case None
    with f have "extract_fields c = None" by simp
    with None Cons.IH [of w1 acc] show ?thesis
      unfolding extract_loop_step [OF e] by simp
  next
    case (Some p)
    with f obtain g where g: "extract_fields c = Some g"
      "record_fields p = (\<lambda>(nm, pr). (s, nm, pr, u)) g"
      by (cases "extract_fields c") auto
    with Some Cons.IH [of w1 "acc @ [p]"] show ?thesis
      unfolding extract_loop_step [OF e] by simp
  qed
qed

lemma scrape_store_cases:
  "scrape_store w u q =
     (case transport w u of
        Inl e \<Rightarrow> ([], w\<lparr>requests_made := requests_made w @ [u]\<rparr>)
      | Inr resp \<Rightarrow>
          (case raise_for_status resp of
             Inl e \<Rightarrow> ([], w\<lparr>requests_made := requests_made w @ [u]\<rparr>)
           | Inr _ \<Rightarrow>
               (case store_name_of u of
                  Inl e \<Rightarrow> ([], w\<lparr>requests_made := requests_made w @ [u]\<rparr>)
                | Inr sn \<Rightarrow>
                    extract_loop (w\<lparr>requests_made := requests_made w @ [u]\<rparr>)
                      (take 10 (product_containers (content resp))) sn u [])))"
  by (simp add: scrape_store_def session_get_def split: sum.splits)

lemma scrape_store_world:
  "transport (snd (scrape_store w u q)) = transport w \<and>
   requests_made (snd (scrape_store w u q)) = requests_made w @ [u] \<and>
   heap (snd (scrape_store w u q)) = heap w \<and>
   rng_reads (snd (scrape_store w u q)) = rng_reads w"
proof -
  let ?w1 = "w\<lparr>requests_made := requests_made w @ [u]\<rparr>"
  have "clock_only ?w1 (snd (extract_loop ?w1 cs sn u []))" for cs sn
    by (rule extract_loop_world)
  then have "transport (snd (extract_loop ?w1 cs sn u [])) = transport w \<and>
      requests_made (snd (extract_loop ?w1 cs sn u [])) = requests_made w @ [u] \<and>
      heap (snd (extract_loop ?w1 cs sn u [])) = heap w \<and>
      rng_reads (snd (extract_loop ?w1 cs sn u [])) = rng_reads w" for cs sn
    by (simp add: clock_only_def)
  then show ?thesis
    by (simp add: scrape_store_cases split: sum.splits)
qed

lemma scrape_store_fields:
  "map record_fields (fst (scrape_store w u q)) =
     (case transport w u of
        Inl e \<Rightarrow> []
      | Inr resp \<Rightarrow>
          (case raise_for_status resp of
             Inl e \<Rightarrow> []
           | Inr _ \<Rightarrow>
               (case store_name_of u of
                  Inl e \<Rightarrow> []
                | Inr sn \<Rightarrow>
                    map (\<lambda>(nm, pr). (sn, nm, pr, u))
                      (List.map_filter extract_fields
                         (take 10 (product_containers (content resp)))))))"
  by (simp add: scrape_store_cases extract_loop_fields split: sum.splits)

lemma scrape_store_fields_cong:
  "transport w' = transport w \<Longrightarrow>
   map record_fields (fst (scrape_store w' u q)) = map record_fields (fst (scrape_store w u q))"
  by (simp add: scrape_store_fields)

lemma length_map_filter_le: "length (List.map_filter f xs) \<le> length xs"
  by (induction xs) (simp_all add: le_SucI split: option.splits)

lemma scrape_store_at_most_10: "length (fst (scrape_store w u q)) \<le> 10"
proof -
  have "length (List.map_filter extract_fields (take 10 cs)) \<le> 10" for cs
    using length_map_filter_le [of extract_fields "take 10 cs"] by simp
  then have "length (map record_fields (fst (scrape_store w u q))) \<le> 10"
    unfolding scrape_store_fields by (simp split: sum.splits)
  then show ?thesis by simp
qed

lemma scrape_loop_world:
  "transport (snd (scrape_loop w us q acc)) = transport w \<and>
   requests_made (snd (scrape_loop w us q acc)) = requests_made w @ us \<and>
   heap (snd (scrape_loop w us q acc)) = heap w \<and>
   rng_reads (snd (scrape_loop w us q acc)) = rng_reads w"
proof (induction us arbitrary: w acc)
  case Nil
  show ?case by simp
next
  case (Cons u us)
  obtain ps w1 where e: "scrape_store w u q = (ps, w1)"
    by (cases "scrape_store w u q")
  from scrape_store_world [of w u q] e
  have w1: "transport w1 = transport w" "requests_made w1 = requests_made w @ [u]"
      "heap w1 = heap w" "rng_reads w1 = rng_reads w"
    by simp_all
  from Cons.IH [of w1 "acc @ ps"] show ?case
    by (simp add: e w1)
qed

lemma scrape_loop_fields:
  "map record_fields (fst (scrape_loop w us q acc)) =
     map record_fields acc @ concat (map (\<lambda>u. map record_fields (fst (scrape_store w u q))) us)"
proof (induction us arbitrary: w acc)
  case Nil
  show ?case by simp
next
  case (Cons u us)
  obtain ps w1 where e: "scrape_store w u q = (ps, w1)"
    by (cases "scrape_store w u q")
  from scrape_store_world [of w u q] e
  have w1: "transport w1 = transport w" by simp
  have "map (\<lambda>v. map record_fields (fst (scrape_store w1 v q))) us
          = map (\<lambda>v. map record_fields (fst (scrape_store w v q))) us"
    by (simp add: scrape_store_fields_cong [OF w1])
  with Cons.IH [of w1 "acc @ ps"] show ?case
    by (simp add: e)
qed

text \<open>
  C7. The collector asks the transport for every source, in input order, whatever the
  earlier sources gave (\<open>requests_made\<close> grows by exactly the list of URLs). Its result,
  the observation times aside, is the concatenation in source order of what
  \<open>scrape_store\<close> returns for each source. A source whose fetch fails (an error or a
  timeout of the transport, or an error status) contributes no record, as does one
  with no valid candidate; a source that answers contributes
  the records extracted from the first 10 candidate containers of its document, in
  candidate order, so at most 10.
\<close>

theorem scrape_multiple_stores_concat:
  "map record_fields (fst (scrape_multiple_stores w urls q))
     = concat (map (\<lambda>u. map record_fields (fst (scrape_store w u q))) urls) \<and>
   requests_made (snd (scrape_multiple_stores w urls q)) = requests_made w @ urls \<and>
   ((\<exists>e. transport w u = Inl e) \<longrightarrow> fst (scrape_store w u q) = []) \<and>
   (transport w u = Inr resp \<and> raise_for_status resp = Inl HTTPError \<longrightarrow>
      fst (scrape_store w u q) = []) \<and>
   (transport w u = Inr resp \<and> raise_for_status resp = Inr () \<and> store_name_of u = Inr sn \<longrightarrow>
      map record_fields (fst (scrape_store w u q))
        = map (\<lambda>(nm, pr). (sn, nm, pr, u))
            (List.map_filter extract_fields (take 10 (product_containers (content resp))))) \<and>
   length (fst (scrape_store w u q)) \<le> 10"
proof (intro conjI impI)
  show "map record_fields (fst (scrape_multiple_stores w urls q))
     = concat (map (\<lambda>u. map record_fields (fst (scrape_store w u q))) urls)"
    by (simp add: scrape_multiple_stores_def scrape_loop_fields)
  show "requests_made (snd (scrape_multiple_stores w urls q)) = requests_made w @ urls"
    by (simp add: scrape_multiple_stores_def scrape_loop_world)
  show "length (fst (scrape_store w u q)) \<le> 10"
    by (rule scrape_store_at_most_10)
next
  assume "\<exists>e. transport w u = Inl e"
  then have "map record_fields (fst (scrape_store w u q)) = []"
    unfolding scrape_store_fields by auto
  then show "fst (scrape_store w u q) = []" by simp
next
  assume "transport w u = Inr resp \<and> raise_for_status resp = Inl HTTPError"
  then have "map record_fields (fst (scrape_store w u q)) = []"
    unfolding scrape_store_fields by simp
  then show "fst (scrape_store w u q) = []" by simp
next
  assume "transport w u = Inr resp \<and> raise_for_status resp = Inr () \<and> store_name_of u = Inr sn"
  then show "map record_fields (fst (scrape_store w u q))
        = map (\<lambda>(nm, pr). (sn, nm, pr, u))
            (List.map_filter extract_fields (take 10 (product_containers (content resp))))"
    unfolding scrape_store_fields by simp
qed

lemmas eval_defs =
  find_all_def find_first_def re_search_any_def lower_def lower_char_def get_text_def strip_def
  is_space_def price_search_def is_num_char_def is_digit_def py_float_def digits_val_def
  digit_val_def

lemma extract_fields_tv_card: "extract_fields tv_card = Some (''TV set'', 2599 / 2)"
  by (simp add: extract_fields_def tv_card_def eval_defs)

lemma extract_fields_free_card: "extract_fields free_card = Some ([], 0)"
  by (simp add: extract_fields_def free_card_def eval_defs)

lemma product_containers_shop_page: "product_containers shop_page = [tv_card, free_card]"
  by (simp add: product_containers_def shop_page_def tv_card_def free_card_def eval_defs)

lemma store_name_of_shop: "store_name_of ''https://www.shop.com/tv'' = Inr ''shop.com''"
  by (simp add: store_name_of_def)

text \<open>
  The theorem at two sources: the first fails and contributes nothing, the second is
  still fetched and contributes its two listings.
\<close>

theorem scrape_multiple_stores_concat_witness:
  "(\<exists>e. transport shop_world ''bad'' = Inl e) \<and>
   fst (scrape_store shop_world ''bad'' ''tv'') = [] \<and>
   transport shop_world ''https://www.shop.com/tv''
     = Inr \<lparr>status_code = 200, content = shop_page\<rparr> \<and>
   raise_for_status \<lparr>status_code = 200, content = shop_page\<rparr> = Inr () \<and>
   store_name_of ''https://www.shop.com/tv'' = Inr ''shop.com'' \<and>
   map record_fields
     (fst (scrape_multiple_stores shop_world [''bad'', ''https://www.shop.com/tv''] ''tv''))
     = [(''shop.com'', ''TV set'', 2599 / 2, ''https://www.shop.com/tv''),
        (''shop.com'', [], 0, ''https://www.shop.com/tv'')]"
proof -
  let ?u = "''https://www.shop.com/tv''"
  let ?resp = "\<lparr>status_code = 200, content = shop_page\<rparr>"
  have bad: "\<exists>e. transport shop_world ''bad'' = Inl e"
    by (simp add: shop_world_def example_world_def)
  have good: "transport shop_world ?u = Inr ?resp \<and> raise_for_status ?resp = Inr () \<and>
      store_name_of ?u = Inr ''shop.com''"
    by (simp add: shop_world_def example_world_def raise_for_status_def store_name_of_shop)
  have none: "fst (scrape_store shop_world ''bad'' ''tv'') = []"
    using scrape_multiple_stores_concat [of shop_world "[]" "''tv''" "''bad''"] bad by blast
  have two: "map record_fields (fst (scrape_store shop_world ?u ''tv''))
      = [(''shop.com'', ''TV set'', 2599 / 2, ?u), (''shop.com'', [], 0, ?u)]"
    using scrape_multiple_stores_concat [of shop_world "[]" "''tv''" ?u ?resp "''shop.com''"] good
    by (simp add: product_containers_shop_page List.map_filter_simps
        extract_fields_tv_card extract_fields_free_card)
  have "map record_fields (fst (scrape_multiple_stores shop_world [''bad'', ?u] ''tv''))
      = concat (map (\<lambda>u. map record_fields (fst (scrape_store shop_world u ''tv''))) [''bad'', ?u])"
    using scrape_multiple_stores_concat [of shop_world "[''bad'', ?u]" "''tv''"] by blast
  with none two bad good show ?thesis by simp
qed





section \<open>Claims about mock mode\<close>

lemma mock_loop_fst:
  "fst (mock_loop w sts nm acc) =
     acc @ map (\<lambda>i. \<lparr>store = sts ! i, product_name = nm,
                      price = py_round (base_price + (- 50 + (50 - (- 50)) * rng w (rng_reads w + i))) 2,
                      url = ''https://'' @ lower (sts ! i) @ ''.com/product'',
                      scraped_at = clock w (clock_reads w + i), additional_info = []\<rparr>)
             [0..<length sts]"
proof (induction sts arbitrary: w acc)
  case Nil
  show ?case by simp
next
  case (Cons st sts)
  let ?w2 = "w\<lparr>rng_reads := Suc (rng_reads w), clock_reads := Suc (clock_reads w)\<rparr>"
  let ?p = "\<lparr>store = st, product_name = nm,
             price = py_round (base_price + (- 50 + (50 - (- 50)) * rng w (rng_reads w))) 2,
             url = ''https://'' @ lower st @ ''.com/product'',
             scraped_at = clock w (clock_reads w), additional_info = []\<rparr>"
  have step: "mock_loop w (st # sts) nm acc = mock_loop ?w2 sts nm (acc @ [?p])"
    by (simp add: random_uniform_def ProductData_init_def datetime_now_def)
  show ?case
    unfolding step Cons.IH [of ?w2 "acc @ [?p]"]
    by (simp add: map_upt_Suc del: upt_Suc)
qed

lemma mock_loop_world:
  "requests_made (snd (mock_loop w sts nm acc)) = requests_made w \<and>
   heap (snd (mock_loop w sts nm acc)) = heap w"
proof (induction sts arbitrary: w acc)
  case Nil
  show ?case by simp
next
  case (Cons st sts)
  let ?w2 = "w\<lparr>rng_reads := Suc (rng_reads w), clock_reads := Suc (clock_reads w)\<rparr>"
  obtain p where step: "mock_loop w (st # sts) nm acc = mock_loop ?w2 sts nm (acc @ [p])"
    by (simp add: random_uniform_def ProductData_init_def datetime_now_def)
  show ?case
    unfolding step using Cons.IH [of ?w2 "acc @ [p]"] by simp
qed

lemma round_half_even_lower: "of_int m \<le> y \<Longrightarrow> m \<le> round_half_even y"
proof -
  assume "of_int m \<le> y"
  then have "m \<le> \<lfloor>y\<rfloor>" by (simp add: le_floor_iff)
  then show ?thesis by (simp add: round_half_even_def Let_def)
qed

lemma round_half_even_upper: "y \<le> of_int m \<Longrightarrow> round_half_even y \<le> m"
proof -
  assume y: "y \<le> of_int m"
  then have f: "\<lfloor>y\<rfloor> \<le> m" by (simp add: floor_le_iff)
  have "\<lfloor>y\<rfloor> + 1 \<le> m" if "0 < y - of_int \<lfloor>y\<rfloor>"
  proof -
    from that have "of_int \<lfloor>y\<rfloor> < y" by simp
    with y have "(of_int \<lfloor>y\<rfloor> :: real) < of_int m" by linarith
    then show ?thesis by simp
  qed
  with f show ?thesis
    by (auto simp: round_half_even_def Let_def)
qed

lemma py_round_2_range:
  assumes "24999 / 100 \<le> x" and "x \<le> 34999 / 100"
  shows "24999 / 100 \<le> py_round x 2 \<and> py_round x 2 \<le> 34999 / 100"
proof -
  have "of_int 24999 \<le> x * 10 ^ 2" using assms(1) by simp
  then have lo: "24999 \<le> round_half_even (x * 10 ^ 2)" by (rule round_half_even_lower)
  have "x * 10 ^ 2 \<le> of_int 34999" using assms(2) by simp
  then have hi: "round_half_even (x * 10 ^ 2) \<le> 34999" by (rule round_half_even_upper)
  have "(24999::real) \<le> of_int (round_half_even (x * 10 ^ 2))"
    using lo by linarith
  moreover have "of_int (round_half_even (x * 10 ^ 2)) \<le> (34999::real)"
    using hi by linarith
  ultimately show ?thesis
    by (simp add: py_round_def)
qed




text \<open>
  C10. Whatever values in the unit interval the generator gives, that is, whatever
  offsets in [-50, 50] are drawn, every listing of mock mode has a price between 249.99
  and 349.99, both included, and so a positive price.
\<close>

theorem get_mock_data_price_range:
  assumes "\<forall>i. 0 \<le> rng w i \<and> rng w i \<le> 1"
  shows "\<forall>p \<in> set (fst (get_mock_data w nm)).
           24999 / 100 \<le> price p \<and> price p \<le> 34999 / 100 \<and> 0 < price p"
proof
  fix p
  assume "p \<in> set (fst (get_mock_data w nm))"
  then obtain i where
    p: "price p = py_round (base_price + (- 50 + (50 - (- 50)) * rng w (rng_reads w + i))) 2"
    by (auto simp: get_mock_data_def mock_loop_fst)
  let ?x = "base_price + (- 50 + (50 - (- 50)) * rng w (rng_reads w + i))"
  from assms have "0 \<le> rng w (rng_reads w + i)" "rng w (rng_reads w + i) \<le> 1"
    by simp_all
  then have "24999 / 100 \<le> ?x" "?x \<le> 34999 / 100"
    by (simp_all add: base_price_def)
  from py_round_2_range [OF this] p
  show "24999 / 100 \<le> price p \<and> price p \<le> 34999 / 100 \<and> 0 < price p"
    by simp
qed

text \<open>The theorem in the example world, whose generator always gives 1/2.\<close>

theorem get_mock_data_price_range_witness:
  "(\<forall>i. 0 \<le> rng example_world i \<and> rng example_world i \<le> 1) \<and>
   list_all (\<lambda>p. 24999 / 100 \<le> price p \<and> price p \<le> 34999 / 100 \<and> 0 < price p)
     (fst (get_mock_data example_world ''tv''))"
proof -
  have h: "\<forall>i. 0 \<le> rng example_world i \<and> rng example_world i \<le> 1"
    by (simp add: example_world_def)
  from get_mock_data_price_range [OF h, of "''tv''"] h show ?thesis
    unfolding list_all_iff by blast
qed

section \<open>Claims about the reporter\<close>

lemma length_filter_sort_key: "length (filter P (sort_key f xs)) = length (filter P xs)"
proof -
  have "mset (filter P (sort_key f xs)) = mset (filter P xs)"
    by (simp only: mset_filter mset_sort)
  then show ?thesis by (rule mset_eq_length)
qed


lemma generate_report_empty:
  assumes "lookup w r = Some (Analyses [])"
  shows "generate_report w r = (Inl AttributeError, store_obj w r (Analyses []))"
  using assms by (simp add: generate_report_def)

lemma generate_report_nonempty:
  assumes "lookup w r = Some (Analyses xs)" and "sort_key (\<lambda>a. price (product a)) xs = b # rest"
  shows "generate_report w r =
           (Inr \<lparr>analyses = r,
                 summary = ''Analyzed '' @ str_nat (length xs) @ '' listings. ''
                         @ ''Found '' @ str_nat (length (filter is_good_deal xs)) @ '' good deals. ''
                         @ ''Best price: $'' @ format_fixed 2 (price (product b))
                         @ '' at '' @ store (product b) @ ''.'',
                 generated_at = clock w (clock_reads w)\<rparr>,
            (store_obj w r (Analyses (b # rest)))\<lparr>clock_reads := Suc (clock_reads w)\<rparr>)"
proof -
  have "length (b # rest) = length xs"
    using length_sort [of "\<lambda>a. price (product a)" xs] assms(2) by simp
  moreover have "length (filter is_good_deal (b # rest)) = length (filter is_good_deal xs)"
    using length_filter_sort_key [of is_good_deal "\<lambda>a. price (product a)" xs] assms(2) by simp
  ultimately show ?thesis
    using assms
    by (simp add: generate_report_def Let_def datetime_now_def store_obj_def del: length_sort)
qed


text \<open>
  C6. Whenever \<open>generate_report\<close> returns a report, the list the report refers to holds
  the given analyses sorted by ascending \<open>product.price\<close>: it is a permutation of the
  input, and the entries of any one price keep the order they had in the input.
\<close>

theorem generate_report_sorted:
  assumes "lookup w r = Some (Analyses xs)" and "generate_report w r = (Inr rep, w')"
  shows "\<exists>ys. lookup w' (analyses rep) = Some (Analyses ys) \<and>
           sorted (map (\<lambda>a. price (product a)) ys) \<and> mset ys = mset xs \<and>
           (\<forall>k. filter (\<lambda>a. price (product a) = k) ys = filter (\<lambda>a. price (product a) = k) xs)"
proof -
  let ?ys = "sort_key (\<lambda>a. price (product a)) xs"
  have r: "r < length (heap w)"
    using assms(1) by (rule lookup_SomeD)
  have "xs \<noteq> []"
    using assms by (auto simp: generate_report_empty)
  then have "?ys \<noteq> []"
    using length_sort [of "\<lambda>a. price (product a)" xs] by (metis length_0_conv)
  then obtain b rest where s: "?ys = b # rest"
    by (cases ?ys) auto
  from generate_report_nonempty [OF assms(1) s] assms(2)
  have rep: "analyses rep = r" and w': "w' = (store_obj w r (Analyses ?ys))\<lparr>clock_reads := Suc (clock_reads w)\<rparr>"
    using s by auto
  have "lookup w' (analyses rep) = Some (Analyses ?ys)"
    using r by (simp add: rep w' lookup_def store_obj_def)
  moreover have "sorted (map (\<lambda>a. price (product a)) ?ys)"
    by (rule sorted_sort_key)
  moreover have "mset ?ys = mset xs"
    by (rule mset_sort)
  moreover have "\<forall>k. filter (\<lambda>a. price (product a) = k) ?ys = filter (\<lambda>a. price (product a) = k) xs"
    by (simp add: sort_key_stable)
  ultimately show ?thesis by blast
qed

lemma sort_two_analyses:
  "sort_key (\<lambda>a. price (product a)) [analysis ''a'' 115 False, analysis ''b'' 85 True]
     = [analysis ''b'' 85 True, analysis ''a'' 115 False]"
  by (simp add: analysis_def listing_def)

lemma lookup_report_world:
  "lookup report_world 0 = Some (Analyses [analysis ''a'' 115 False, analysis ''b'' 85 True])"
  "lookup report_world 1 = Some (Products [listing ''a'' 115, listing ''b'' 85])"
  by (simp_all add: lookup_def report_world_def example_world_def)

lemma generate_report_report_world:
  "generate_report report_world 0 =
     (Inr \<lparr>analyses = 0,
           summary = ''Analyzed 2 listings. Found 1 good deals. Best price: $85.00 at b.'',
           generated_at = 0\<rparr>,
      (store_obj report_world 0 (Analyses [analysis ''b'' 85 True, analysis ''a'' 115 False]))
        \<lparr>clock_reads := Suc 0\<rparr>)"
proof -
  have clk: "clock_reads report_world = 0" "clock report_world 0 = 0"
    by (simp_all add: report_world_def example_world_def)
  have parts: "str_nat (length [analysis ''a'' 115 False, analysis ''b'' 85 True]) = ''2''"
      "str_nat (length (filter is_good_deal [analysis ''a'' 115 False, analysis ''b'' 85 True])) = ''1''"
      "format_fixed 2 (price (product (analysis ''b'' 85 True))) = ''85.00''"
      "store (product (analysis ''b'' 85 True)) = ''b''"
    by (simp_all add: analysis_def listing_def str_nat_small str_nat_big digit_char_def
        format_fixed_def round_half_even_def Let_def)
  show ?thesis
    unfolding generate_report_nonempty [OF lookup_report_world(1) sort_two_analyses] parts clk
    by simp
qed


text \<open>The theorem on a list of two analyses given in descending order of price.\<close>

theorem generate_report_sorted_witness:
  "lookup report_world 0 = Some (Analyses [analysis ''a'' 115 False, analysis ''b'' 85 True]) \<and>
   generate_report report_world 0 =
     (Inr \<lparr>analyses = 0,
           summary = ''Analyzed 2 listings. Found 1 good deals. Best price: $85.00 at b.'',
           generated_at = 0\<rparr>,
      (store_obj report_world 0 (Analyses [analysis ''b'' 85 True, analysis ''a'' 115 False]))
        \<lparr>clock_reads := Suc 0\<rparr>) \<and>
   (\<exists>ys. lookup ((store_obj report_world 0
                     (Analyses [analysis ''b'' 85 True, analysis ''a'' 115 False]))
                   \<lparr>clock_reads := Suc 0\<rparr>) 0 = Some (Analyses ys) \<and>
      sorted (map (\<lambda>a. price (product a)) ys) \<and>
      mset ys = mset [analysis ''a'' 115 False, analysis ''b'' 85 True])"
  using generate_report_sorted [OF lookup_report_world(1) generate_report_report_world]
    lookup_report_world(1) generate_report_report_world
  by auto

lemma generate_report_other:
  assumes "b \<noteq> r"
  shows "lookup (snd (generate_report w r)) b = lookup w b"
proof (cases "\<exists>xs. lookup w r = Some (Analyses xs)")
  case True
  then obtain xs where xs: "lookup w r = Some (Analyses xs)" by blast
  show ?thesis
  proof (cases "sort_key (\<lambda>a. price (product a)) xs")
    case Nil
    then have "xs = []"
      using length_sort [of "\<lambda>a. price (product a)" xs] by simp
    with xs assms show ?thesis
      by (simp add: generate_report_empty lookup_store_other)
  next
    case (Cons c rest)
    from generate_report_nonempty [OF xs Cons] assms show ?thesis
      by (simp add: lookup_def store_obj_def)
  qed
next
  case False
  then have "generate_report w r = (Inl AttributeError, w)"
    by (auto simp: generate_report_def split: option.splits obj.splits)
  then show ?thesis by simp
qed

lemma generate_report_same:
  assumes "lookup w r = Some (Analyses xs)"
  shows "lookup (snd (generate_report w r)) r = Some (Analyses (sort_key (\<lambda>a. price (product a)) xs))
         \<and> (\<forall>rep. fst (generate_report w r) = Inr rep \<longrightarrow> analyses rep = r)"
proof (cases "sort_key (\<lambda>a. price (product a)) xs")
  case Nil
  then have "xs = []"
    using length_sort [of "\<lambda>a. price (product a)" xs] by simp
  with assms lookup_SomeD [OF assms] show ?thesis
    by (simp add: generate_report_empty lookup_store_same)
next
  case (Cons c rest)
  from generate_report_nonempty [OF assms Cons] lookup_SomeD [OF assms] Cons show ?thesis
    by (simp add: lookup_def store_obj_def)
qed

lemma lookup_heap_append: "lookup w b = Some x \<Longrightarrow> heap w' = heap w @ ys \<Longrightarrow> lookup w' b = Some x"
  by (simp add: lookup_def nth_append split: if_splits)

lemma analyze_deals_ref_heap:
  "\<exists>ys. heap (snd (analyze_deals_ref w r)) = heap w @ ys \<and>
        (\<forall>a. fst (analyze_deals_ref w r) = Inr a \<longrightarrow> a = length (heap w))"
proof (cases "\<exists>ps. lookup w r = Some (Products ps)")
  case True
  then obtain ps where "lookup w r = Some (Products ps)" by blast
  from analyze_deals_ref_eq [OF this] show ?thesis
    by (cases "analyze_deals ps") simp_all
next
  case False
  then have "analyze_deals_ref w r = (Inl TypeError, w)"
    by (auto simp: analyze_deals_ref_def split: option.splits obj.splits)
  then show ?thesis by simp
qed

lemma scrape_multiple_stores_ref_heap:
  "\<exists>ys. heap (snd (scrape_multiple_stores_ref w r q)) = heap w @ ys \<and>
        (\<forall>a. fst (scrape_multiple_stores_ref w r q) = Inr a \<longrightarrow> a = length (heap w))"
proof (cases "\<exists>us. lookup w r = Some (Urls us)")
  case True
  then obtain us where us: "lookup w r = Some (Urls us)" by blast
  let ?w1 = "w\<lparr>heap := heap w @ [Products []]\<rparr>"
  obtain ps w2 where s: "scrape_multiple_stores ?w1 us q = (ps, w2)"
    by (cases "scrape_multiple_stores ?w1 us q")
  have "heap w2 = heap ?w1"
    using scrape_loop_world [of ?w1 us q "[]"] s by (simp add: scrape_multiple_stores_def)
  with us s show ?thesis
    by (simp add: scrape_multiple_stores_ref_def alloc_def store_obj_def)
next
  case False
  then have "scrape_multiple_stores_ref w r q = (Inl TypeError, w)"
    by (auto simp: scrape_multiple_stores_ref_def split: option.splits obj.splits)
  then show ?thesis by simp
qed

lemma get_mock_data_ref_heap:
  "\<exists>ys. heap (snd (get_mock_data_ref w nm)) = heap w @ ys \<and>
        fst (get_mock_data_ref w nm) = length (heap w)"
proof -
  let ?w1 = "w\<lparr>heap := heap w @ [Products []]\<rparr>"
  obtain ps w2 where s: "get_mock_data ?w1 nm = (ps, w2)"
    by (cases "get_mock_data ?w1 nm")
  have "heap w2 = heap ?w1"
    using mock_loop_world [of ?w1 stores nm "[]"] s by (simp add: get_mock_data_def)
  with s show ?thesis
    by (simp add: get_mock_data_ref_def alloc_def store_obj_def)
qed

text \<open>
  C5, as amended. The collector, mock mode and the classifier leave every list that
  exists before the call, their argument included, with the content it had, and the
  list they return is a new one. \<open>generate_report\<close> leaves every list other than its
  argument as it was; its argument it sorts in place: after the call the caller's list
  holds the same analyses, each unchanged, in ascending order of price, and the report
  refers to that same list. No stage changes a field of a listing.
\<close>

theorem stages_frame:
  "(lookup w b = Some x \<longrightarrow>
      lookup (snd (scrape_multiple_stores_ref w r q)) b = Some x \<and>
      lookup (snd (get_mock_data_ref w nm)) b = Some x \<and>
      lookup (snd (analyze_deals_ref w r)) b = Some x \<and>
      (b \<noteq> r \<longrightarrow> lookup (snd (generate_report w r)) b = Some x)) \<and>
   (\<forall>a. fst (scrape_multiple_stores_ref w r q) = Inr a \<longrightarrow> lookup w a = None) \<and>
   lookup w (fst (get_mock_data_ref w nm)) = None \<and>
   (\<forall>a. fst (analyze_deals_ref w r) = Inr a \<longrightarrow> lookup w a = None) \<and>
   (lookup w r = Some (Analyses xs) \<longrightarrow>
      lookup (snd (generate_report w r)) r
        = Some (Analyses (sort_key (\<lambda>a. price (product a)) xs)) \<and>
      mset (sort_key (\<lambda>a. price (product a)) xs) = mset xs \<and>
      (\<forall>rep. fst (generate_report w r) = Inr rep \<longrightarrow> analyses rep = r))"
proof (intro conjI impI allI)
  assume x: "lookup w b = Some x"
  from scrape_multiple_stores_ref_heap [of w r q] lookup_heap_append [OF x]
  show "lookup (snd (scrape_multiple_stores_ref w r q)) b = Some x" by blast
  from get_mock_data_ref_heap [of w nm] lookup_heap_append [OF x]
  show "lookup (snd (get_mock_data_ref w nm)) b = Some x" by blast
  from analyze_deals_ref_heap [of w r] lookup_heap_append [OF x]
  show "lookup (snd (analyze_deals_ref w r)) b = Some x" by blast
  show "lookup (snd (generate_report w r)) b = Some x" if "b \<noteq> r"
    using generate_report_other [OF that] x by simp
next
  fix a
  assume "fst (scrape_multiple_stores_ref w r q) = Inr a"
  with scrape_multiple_stores_ref_heap [of w r q] show "lookup w a = None"
    by (auto simp: lookup_def)
next
  from get_mock_data_ref_heap [of w nm] show "lookup w (fst (get_mock_data_ref w nm)) = None"
    by (auto simp: lookup_def)
next
  fix a
  assume "fst (analyze_deals_ref w r) = Inr a"
  with analyze_deals_ref_heap [of w r] show "lookup w a = None"
    by (auto simp: lookup_def)
next
  assume xs: "lookup w r = Some (Analyses xs)"
  from generate_report_same [OF xs]
  show "lookup (snd (generate_report w r)) r
        = Some (Analyses (sort_key (\<lambda>a. price (product a)) xs))" by blast
  show "mset (sort_key (\<lambda>a. price (product a)) xs) = mset xs" by (rule mset_sort)
  fix rep
  assume "fst (generate_report w r) = Inr rep"
  with generate_report_same [OF xs] show "analyses rep = r" by blast
qed

text \<open>
  The theorem on a heap holding a list of analyses and a list of products: the
  products are untouched by the classifier and the reporter, the analyses are sorted.
\<close>

theorem stages_frame_witness:
  "lookup report_world 1 = Some (Products [listing ''a'' 115, listing ''b'' 85]) \<and>
   (1::nat) \<noteq> 0 \<and>
   lookup report_world 0 = Some (Analyses [analysis ''a'' 115 False, analysis ''b'' 85 True]) \<and>
   lookup (snd (analyze_deals_ref report_world 1)) 1
     = Some (Products [listing ''a'' 115, listing ''b'' 85]) \<and>
   lookup (snd (generate_report report_world 0)) 1
     = Some (Products [listing ''a'' 115, listing ''b'' 85]) \<and>
   lookup (snd (generate_report report_world 0)) 0
     = Some (Analyses [analysis ''b'' 85 True, analysis ''a'' 115 False])"
proof -
  have a: "lookup (snd (analyze_deals_ref report_world 1)) 1
     = Some (Products [listing ''a'' 115, listing ''b'' 85])"
    using stages_frame [of report_world 1 "Products [listing ''a'' 115, listing ''b'' 85]" 1]
      lookup_report_world(2) by blast
  have b: "lookup (snd (generate_report report_world 0)) 1
     = Some (Products [listing ''a'' 115, listing ''b'' 85])"
    using stages_frame [of report_world 1 "Products [listing ''a'' 115, listing ''b'' 85]" 0]
      lookup_report_world(2) by simp
  have c: "lookup (snd (generate_report report_world 0)) 0
     = Some (Analyses [analysis ''b'' 85 True, analysis ''a'' 115 False])"
    using stages_frame [of report_world 0 _ 0 _ _ "[analysis ''a'' 115 False, analysis ''b'' 85 True]"]
      lookup_report_world(1) sort_two_analyses by simp
  from a b c lookup_report_world show ?thesis by simp
qed

text \<open>
  C5 as stated fails: after \<open>generate_report\<close> the caller's list of analyses, given
  with the dearer listing first, has the cheaper listing first.
\<close>

theorem generate_report_reorders_argument:
  "lookup report_world 0 = Some (Analyses [analysis ''a'' 115 False, analysis ''b'' 85 True]) \<and>
   lookup (snd (generate_report report_world 0)) 0
     = Some (Analyses [analysis ''b'' 85 True, analysis ''a'' 115 False]) \<and>
   lookup (snd (generate_report report_world 0)) 0 \<noteq> lookup report_world 0"
proof -
  have "lookup (snd (generate_report report_world 0)) 0
     = Some (Analyses [analysis ''b'' 85 True, analysis ''a'' 115 False])"
    unfolding generate_report_report_world
    by (simp add: lookup_def store_obj_def report_world_def example_world_def)
  moreover have "analysis ''b'' 85 True \<noteq> analysis ''a'' 115 False"
    by (simp add: analysis_def)
  ultimately show ?thesis
    by (simp add: lookup_report_world)
qed

end
